theory Spec2Isabelle
  imports Main "HOL-Library.Word"
begin

unbundle bit_operations_syntax

section \<open>The sticker set box of boxes/sticker\_set\_box.cpp\<close>

text \<open>
  The embedding follows \<^verbatim>\<open>StickerSetBox::Inner\<close>: its fields, the two completion
  handlers \<^verbatim>\<open>gotSet\<close> and \<^verbatim>\<open>installDone\<close>, \<^verbatim>\<open>install\<close>, and the const
  queries. Painting, hover and preview code is left out. Calls into collaborators whose
  code is outside the sources (transport, dialogs, local storage, notifications) are
  recorded as a list of effects, in the order the handler performs them.
\<close>

subsection \<open>Data\<close>

type_synonym uint64 = "64 word"
type_synonym int32 = "32 word"
type_synonym TimeId = "32 word"
type_synonym mtpRequestId = "32 word"
type_synonym Flags = "32 word"

text \<open>
  A \<^verbatim>\<open>DocumentData*\<close> and an \<^verbatim>\<open>EmojiPtr\<close> are compared by identity only, so a
  pointer is a number. An \<^verbatim>\<open>ImagePtr\<close> is \<open>None\<close> for the default-constructed
  \<^verbatim>\<open>ImagePtr()\<close>.
\<close>

type_synonym DocumentPtr = nat
type_synonym EmojiPtr = nat
type_synonym ImagePtr = "nat option"
type_synonym Pack = "DocumentPtr list"
type_synonym ByEmojiMap = "EmojiPtr \<rightharpoonup> Pack"

text \<open>\<^verbatim>\<open>Stickers::Set\<close>, with the fields this file reads and writes.\<close>

record StickersSet =
  id' :: uint64
  access :: uint64
  title :: string
  shortName :: string
  count :: int32
  hash :: int32
  flags :: Flags
  installDate :: TimeId
  thumbnail :: ImagePtr
  stickers :: Pack
  emoji :: ByEmojiMap

text \<open>The nine-argument constructor used at line 357: pack and emoji map start empty.\<close>

definition Stickers_Set ::
  "uint64 \<Rightarrow> uint64 \<Rightarrow> string \<Rightarrow> string \<Rightarrow> int32 \<Rightarrow> int32 \<Rightarrow> Flags \<Rightarrow> TimeId \<Rightarrow> ImagePtr
    \<Rightarrow> StickersSet" where
  "Stickers_Set i a t sn c h f d th =
     \<lparr>id' = i, access = a, title = t, shortName = sn, count = c, hash = h, flags = f,
      installDate = d, thumbnail = th, stickers = [], emoji = Map.empty\<rparr>"

text \<open>
  The part of \<^verbatim>\<open>Data::Session\<close> the handlers reach through
  \<^verbatim>\<open>stickerSetsRef()\<close>, \<^verbatim>\<open>stickerSetsOrderRef()\<close> and
  \<^verbatim>\<open>archivedStickerSetsOrderRef()\<close>, and the document store, whose type is left open.
\<close>

record 'ds Session =
  stickerSets :: "uint64 \<rightharpoonup> StickersSet"
  stickerSetsOrder :: "uint64 list"
  archivedStickerSetsOrder :: "uint64 list"
  documents :: 'ds

subsection \<open>Wire types\<close>

datatype MTPInputStickerSet =
    inputStickerSetID uint64 uint64
  | inputStickerSetShortName string
  | inputStickerSetEmpty
  | inputStickerSetAnimatedEmoji

record MTPDstickerSet =
  vid :: uint64
  vaccess_hash :: uint64
  vtitle :: string
  vshort_name :: string
  vcount :: int32
  vhash :: int32
  vflags :: Flags
  vinstalled_date :: "TimeId option"
  vthumb :: "nat option"

record MTPDstickerPack =
  vemoticon :: string
  pack_vdocuments :: "uint64 list"

record 'wd MTPDmessages_stickerSet =
  vset :: MTPDstickerSet
  vpacks :: "MTPDstickerPack list"
  vdocuments :: "'wd list"

datatype 'c MTPmessages_StickerSetInstallResult =
    messages_stickerSetInstallResultSuccess
  | messages_stickerSetInstallResultArchive 'c

subsection \<open>Declarations outside the sources\<close>

text \<open>
  The flag bits of \<^verbatim>\<open>MTPDstickerSet::Flag\<close> and \<^verbatim>\<open>MTPDstickerSet_ClientFlag\<close> and
  the constant \<^verbatim>\<open>Stickers::CustomSetId\<close> are declared in headers that are not part
  of the sources. They are parameters of the model.
\<close>

record Decls =
  f_installed_date :: Flags
  f_archived :: Flags
  f_masks :: Flags
  cf_featured :: Flags
  cf_not_loaded :: Flags
  cf_unread :: Flags
  cf_special :: Flags
  CustomSetId :: uint64

text \<open>
  The helpers \<^verbatim>\<open>gotSet\<close> calls on the session and on the emoji and image modules
  are parameters as well: \<open>processDocument\<close> registers a wire document in the store and
  returns its pointer; \<open>sticker\<close> is whether \<^verbatim>\<open>DocumentData::sticker()\<close> is non-null.

  Modelled from the spec: \<open>document\<close> is the store's \<^verbatim>\<open>Resolve(documentId) ->
  DocumentRef | absent\<close>, a lookup that leaves the store as it is; the body of
  \<^verbatim>\<open>Data::Session::document\<close> is not in the sources.
\<close>

record ('wd, 'ds) Env =
  processDocument :: "'wd \<Rightarrow> 'ds \<Rightarrow> DocumentPtr \<times> 'ds"
  sticker :: "'ds \<Rightarrow> DocumentPtr \<Rightarrow> bool"
  document :: "'ds \<Rightarrow> uint64 \<Rightarrow> DocumentPtr option"
  EmojiFind :: "string \<Rightarrow> EmojiPtr option"
  original :: "EmojiPtr \<Rightarrow> EmojiPtr"
  GetSetTitle :: "MTPDstickerSet \<Rightarrow> string"
  ImagesCreate :: "MTPDstickerSet \<Rightarrow> nat \<Rightarrow> ImagePtr"

subsection \<open>Effects\<close>

datatype lang_key = lng_stickers_not_found | lng_stickers_masks_pack

datatype 'c Effect =
    SendGetStickerSet MTPInputStickerSet
  | UpdateStickers
  | SendInstallStickerSet MTPInputStickerSet
  | ShowInformBox lang_key
  | FireUpdateControls
  | ApplyArchivedResult 'c
  | WriteArchivedStickers
  | WriteInstalledStickers
  | NotifyStickersUpdated
  | FireSetInstalled uint64

subsection \<open>The fields of Inner\<close>

text \<open>A field \<^verbatim>\<open>_name\<close> of the class is \<open>m_name\<close> here.\<close>

record Inner =
  m_pack :: Pack
  m_emoji :: ByEmojiMap
  m_loaded :: bool
  m_setId :: uint64
  m_setAccess :: uint64
  m_setTitle :: string
  m_setShortName :: string
  m_setCount :: int32
  m_setHash :: int32
  m_setFlags :: Flags
  m_setInstallDate :: TimeId
  m_setThumbnail :: ImagePtr
  m_input :: MTPInputStickerSet
  m_installRequest :: mtpRequestId

subsection \<open>Qt list operations\<close>

text \<open>\<^verbatim>\<open>indexOf\<close> returns the first index of the value, or \<open>-1\<close>.\<close>

fun indexOf :: "'a list \<Rightarrow> 'a \<Rightarrow> int" where
  "indexOf [] x = - 1"
| "indexOf (y # ys) x =
     (if y = x then 0 else (let i = indexOf ys x in if i < 0 then - 1 else i + 1))"

text \<open>
  \<^verbatim>\<open>removeAt\<close> is only ever called here with an index \<^verbatim>\<open>indexOf\<close> returned and
  found non-negative. Outside the range the model leaves the list as it is.
\<close>

definition removeAt :: "'a list \<Rightarrow> int \<Rightarrow> 'a list" where
  "removeAt xs i =
     (if 0 \<le> i \<and> i < int (length xs) then take (nat i) xs @ drop (Suc (nat i)) xs else xs)"

subsection \<open>Construction and the fetch handlers\<close>

definition Inner_fields0 :: "MTPInputStickerSet \<Rightarrow> Inner" where
  "Inner_fields0 inp =
     \<lparr>m_pack = [], m_emoji = Map.empty, m_loaded = False, m_setId = 0, m_setAccess = 0,
      m_setTitle = [], m_setShortName = [], m_setCount = 0, m_setHash = 0, m_setFlags = 0,
      m_setInstallDate = 0, m_setThumbnail = None, m_input = inp, m_installRequest = 0\<rparr>"

text \<open>
  The constructor, lines 215 to 246: \<open>Inner_new\<close> is the fields it leaves,
  \<open>Inner_ctor\<close> adds the requests it sends.
\<close>

definition Inner_new :: "MTPInputStickerSet \<Rightarrow> Inner" where
  "Inner_new inp =
     (case inp of
        inputStickerSetID i a \<Rightarrow> (Inner_fields0 inp)\<lparr>m_setId := i, m_setAccess := a\<rparr>
      | inputStickerSetShortName n \<Rightarrow> (Inner_fields0 inp)\<lparr>m_setShortName := n\<rparr>
      | inputStickerSetEmpty \<Rightarrow> Inner_fields0 inp
      | inputStickerSetAnimatedEmoji \<Rightarrow> Inner_fields0 inp)"

definition Inner_ctor :: "MTPInputStickerSet \<Rightarrow> Inner \<times> 'c Effect list" where
  "Inner_ctor inp = (Inner_new inp, [SendGetStickerSet inp, UpdateStickers])"

text \<open>The \<^verbatim>\<open>fail\<close> handler of the fetch request, lines 236 to 239.\<close>

definition fetchFail :: "Inner \<Rightarrow> Inner \<times> 'c Effect list" where
  "fetchFail inner = (inner\<lparr>m_loaded := True\<rparr>, [ShowInformBox lng_stickers_not_found])"

text \<open>The loop over \<^verbatim>\<open>data.vdocuments().v\<close>, lines 258 to 266.\<close>

fun parseDocuments ::
  "('wd, 'ds) Env \<Rightarrow> 'wd list \<Rightarrow> 'ds \<Rightarrow> Pack \<Rightarrow> Pack \<times> 'ds" where
  "parseDocuments E [] D p = (p, D)"
| "parseDocuments E (item # v) D p =
     (case processDocument E item D of
        (doc, D') \<Rightarrow>
          if \<not> sticker E D' doc then parseDocuments E v D' p
          else parseDocuments E v D' (p @ [doc]))"

text \<open>The loop over the document ids of one emoji pack, lines 275 to 280.\<close>

fun resolvePack :: "('wd, 'ds) Env \<Rightarrow> 'ds \<Rightarrow> uint64 list \<Rightarrow> Pack \<Rightarrow> Pack" where
  "resolvePack E D [] p = p"
| "resolvePack E D (j # js) p =
     (case document E D j of
        None \<Rightarrow> resolvePack E D js p
      | Some doc \<Rightarrow>
          if \<not> sticker E D doc then resolvePack E D js p
          else resolvePack E D js (p @ [doc]))"

text \<open>The loop over \<^verbatim>\<open>data.vpacks().v\<close>, lines 267 to 284.\<close>

fun parsePacks ::
  "('wd, 'ds) Env \<Rightarrow> 'ds \<Rightarrow> MTPDstickerPack list \<Rightarrow> ByEmojiMap \<Rightarrow> ByEmojiMap" where
  "parsePacks E D [] em = em"
| "parsePacks E D (pack # packs) em =
     (case EmojiFind E (vemoticon pack) of
        None \<Rightarrow> parsePacks E D packs em
      | Some e \<Rightarrow>
          parsePacks E D packs
            (em(original E e \<mapsto> resolvePack E D (pack_vdocuments pack) [])))"

definition clientFlagsMask :: "Decls \<Rightarrow> Flags" where
  "clientFlagsMask K = cf_featured K OR cf_not_loaded K OR cf_unread K OR cf_special K"

text \<open>
  \<^verbatim>\<open>gotSet\<close>, lines 248 to 329. The registry entry is rewritten only when
  \<^verbatim>\<open>sets.find(_setId)\<close> succeeds; the check for an empty pack comes after that.
\<close>

definition gotSet ::
  "('wd, 'ds) Env \<Rightarrow> Decls \<Rightarrow> 'wd MTPDmessages_stickerSet \<Rightarrow> Inner \<times> 'ds Session
    \<Rightarrow> (Inner \<times> 'ds Session) \<times> 'c Effect list" where
  "gotSet E K data st =
     (case st of (inner, sess) \<Rightarrow>
      case parseDocuments E (vdocuments data) (documents sess) [] of (pack, D) \<Rightarrow>
      let em = parsePacks E D (vpacks data) Map.empty;
          s = vset data;
          setId = vid s;
          date = (case vinstalled_date s of None \<Rightarrow> 0 | Some d \<Rightarrow> d);
          thumb = (case vthumb s of Some t \<Rightarrow> ImagesCreate E s t | None \<Rightarrow> None);
          sets = stickerSets sess;
          fl = (case sets setId of
                  Some it \<Rightarrow> vflags s OR (flags it AND clientFlagsMask K)
                | None \<Rightarrow> vflags s);
          sets' = (case sets setId of
                     Some it \<Rightarrow>
                       sets(setId \<mapsto> it\<lparr>flags := fl, installDate := date, stickers := pack,
                                         emoji := em, thumbnail := thumb\<rparr>)
                   | None \<Rightarrow> sets);
          inner' = inner\<lparr>m_pack := pack, m_emoji := em, m_setTitle := GetSetTitle E s,
                         m_setShortName := vshort_name s, m_setId := setId,
                         m_setAccess := vaccess_hash s, m_setCount := vcount s,
                         m_setHash := vhash s, m_setFlags := fl, m_setInstallDate := date,
                         m_setThumbnail := thumb\<rparr>;
          sess' = sess\<lparr>stickerSets := sets', documents := D\<rparr>
      in if pack = [] then ((inner', sess'), [ShowInformBox lng_stickers_not_found])
         else ((inner'\<lparr>m_loaded := True\<rparr>, sess'), [FireUpdateControls]))"

subsection \<open>Install completion\<close>

text \<open>Lines 343 to 349: the archived order.\<close>

definition dropFromArchivedOrder :: "bool \<Rightarrow> uint64 \<Rightarrow> uint64 list \<Rightarrow> uint64 list" where
  "dropFromArchivedOrder wasArchived setId ao =
     (if wasArchived then
        (let index = indexOf ao setId in if index \<ge> 0 then removeAt ao index else ao)
      else ao)"

text \<open>Lines 353 to 372: insert or update the entry, then overwrite pack and emoji map.\<close>

definition upsertSet ::
  "Inner \<Rightarrow> Flags \<Rightarrow> TimeId \<Rightarrow> (uint64 \<rightharpoonup> StickersSet) \<Rightarrow> (uint64 \<rightharpoonup> StickersSet)" where
  "upsertSet inner fl date sets =
     (let it = (case sets (m_setId inner) of
                  None \<Rightarrow>
                    Stickers_Set (m_setId inner) (m_setAccess inner) (m_setTitle inner)
                      (m_setShortName inner) (m_setCount inner) (m_setHash inner) fl date
                      (m_setThumbnail inner)
                | Some it \<Rightarrow> it\<lparr>flags := fl, installDate := date\<rparr>)
      in sets(m_setId inner \<mapsto> it\<lparr>stickers := m_pack inner, emoji := m_emoji inner\<rparr>))"

text \<open>Lines 374 to 381: the install order.\<close>

definition updateOrder :: "uint64 \<Rightarrow> uint64 list \<Rightarrow> uint64 list" where
  "updateOrder setId order =
     (let insertAtIndex = 0; currentIndex = indexOf order setId in
      if currentIndex \<noteq> insertAtIndex then
        setId # (if currentIndex > 0 then removeAt order currentIndex else order)
      else order)"

text \<open>Lines 385 to 388: one pass over the pack, removing from the custom set's list.\<close>

fun removeEach :: "Pack \<Rightarrow> Pack \<Rightarrow> Pack" where
  "removeEach [] cs = cs"
| "removeEach (s # pack) cs =
     (let removeIndex = indexOf cs s in
      removeEach pack (if removeIndex \<ge> 0 then removeAt cs removeIndex else cs))"

text \<open>Lines 383 to 392.\<close>

definition cleanupCustom ::
  "Decls \<Rightarrow> Pack \<Rightarrow> (uint64 \<rightharpoonup> StickersSet) \<Rightarrow> (uint64 \<rightharpoonup> StickersSet)" where
  "cleanupCustom K pack sets =
     (case sets (CustomSetId K) of
        None \<Rightarrow> sets
      | Some custom \<Rightarrow>
          (let cs = removeEach pack (stickers custom) in
           if cs = [] then sets(CustomSetId K := None)
           else sets(CustomSetId K \<mapsto> custom\<lparr>stickers := cs\<rparr>)))"

text \<open>
  \<^verbatim>\<open>installDone\<close>, lines 339 to 404. \<open>now\<close> is what \<^verbatim>\<open>base::unixtime::now()\<close>
  returns. \<^verbatim>\<open>Stickers::ApplyArchivedResult\<close> is outside the sources: the call is
  recorded as an effect, and the session returned is the one \<^verbatim>\<open>installDone\<close>'s own
  statements leave.
\<close>

definition installDone ::
  "Decls \<Rightarrow> TimeId \<Rightarrow> 'c MTPmessages_StickerSetInstallResult \<Rightarrow> Inner \<times> 'ds Session
    \<Rightarrow> (Inner \<times> 'ds Session) \<times> 'c Effect list" where
  "installDone K now result st =
     (case st of (inner, sess) \<Rightarrow>
      let wasArchived = (m_setFlags inner AND f_archived K \<noteq> 0);
          ao = dropFromArchivedOrder wasArchived (m_setId inner) (archivedStickerSetsOrder sess);
          fl = (m_setFlags inner AND NOT (f_archived K)) OR f_installed_date K;
          inner' = inner\<lparr>m_setInstallDate := now, m_setFlags := fl\<rparr>;
          sets = upsertSet inner' fl now (stickerSets sess);
          order = updateOrder (m_setId inner) (stickerSetsOrder sess);
          sets' = cleanupCustom K (m_pack inner) sets;
          sess' = sess\<lparr>stickerSets := sets', stickerSetsOrder := order,
                       archivedStickerSetsOrder := ao\<rparr>
      in ((inner', sess'),
          (case result of
             messages_stickerSetInstallResultArchive c \<Rightarrow> [ApplyArchivedResult c]
           | messages_stickerSetInstallResultSuccess \<Rightarrow>
               (if wasArchived then [WriteArchivedStickers] else [])
               @ [WriteInstalledStickers, NotifyStickersUpdated])
          @ [FireSetInstalled (m_setId inner)]))"

subsection \<open>Install request\<close>

definition isMasksSet :: "Decls \<Rightarrow> Inner \<Rightarrow> bool" where
  "isMasksSet K inner = (m_setFlags inner AND f_masks K \<noteq> 0)"

text \<open>
  \<^verbatim>\<open>install\<close>, lines 692 to 709. \<open>rid\<close> is the request id \<^verbatim>\<open>send()\<close> returns.
\<close>

definition install :: "Decls \<Rightarrow> mtpRequestId \<Rightarrow> Inner \<Rightarrow> Inner \<times> 'c Effect list" where
  "install K rid inner =
     (if isMasksSet K inner then (inner, [ShowInformBox lng_stickers_masks_pack])
      else if m_installRequest inner \<noteq> 0 then (inner, [])
      else (inner\<lparr>m_installRequest := rid\<rparr>, [SendInstallStickerSet (m_input inner)]))"

text \<open>The \<^verbatim>\<open>fail\<close> handler of the install request, lines 706 to 708.\<close>

definition installFail :: "Inner \<Rightarrow> Inner \<times> 'c Effect list" where
  "installFail inner = (inner, [ShowInformBox lng_stickers_not_found])"

subsection \<open>Queries\<close>

definition loaded :: "Inner \<Rightarrow> bool" where
  "loaded inner = (m_loaded inner \<and> \<not> (m_pack inner = []))"

definition notInstalled :: "Decls \<Rightarrow> Inner \<Rightarrow> 'ds Session \<Rightarrow> bool" where
  "notInstalled K inner sess =
     (if \<not> m_loaded inner then False
      else (case stickerSets sess (m_setId inner) of
              None \<Rightarrow> \<not> (m_pack inner = [])
            | Some it \<Rightarrow>
                if flags it AND f_installed_date K = 0 \<or> flags it AND f_archived K \<noteq> 0
                then \<not> (m_pack inner = []) else False))"

definition official :: "Inner \<Rightarrow> bool" where
  "official inner = (m_loaded inner \<and> m_setShortName inner = [])"

datatype Title = lng_contacts_loading | lng_attach_failed | SetTitle string

definition Inner_title :: "Inner \<Rightarrow> Title" where
  "Inner_title inner =
     (if \<not> m_loaded inner then lng_contacts_loading
      else if m_pack inner = [] then lng_attach_failed
      else SetTitle (m_setTitle inner))"

subsection \<open>Events on one instance\<close>

text \<open>
  What can happen to a constructed instance: the two outcomes of the fetch request, a
  call of \<^verbatim>\<open>install\<close> (with the id the transport hands back), and the two outcomes
  of an install request.
\<close>

datatype ('wd, 'c) Event =
    GotSet "'wd MTPDmessages_stickerSet"
  | FetchFail
  | Install mtpRequestId
  | InstallDone TimeId "'c MTPmessages_StickerSetInstallResult"
  | InstallFail

fun step ::
  "('wd, 'ds) Env \<Rightarrow> Decls \<Rightarrow> ('wd, 'c) Event \<Rightarrow> Inner \<times> 'ds Session
    \<Rightarrow> (Inner \<times> 'ds Session) \<times> 'c Effect list" where
  "step E K (GotSet data) st = gotSet E K data st"
| "step E K FetchFail (inner, sess) =
     (case fetchFail inner of (inner', es) \<Rightarrow> ((inner', sess), es))"
| "step E K (Install rid) (inner, sess) =
     (case install K rid inner of (inner', es) \<Rightarrow> ((inner', sess), es))"
| "step E K (InstallDone now result) st = installDone K now result st"
| "step E K InstallFail (inner, sess) =
     (case installFail inner of (inner', es) \<Rightarrow> ((inner', sess), es))"

fun run ::
  "('wd, 'ds) Env \<Rightarrow> Decls \<Rightarrow> ('wd, 'c) Event list \<Rightarrow> Inner \<times> 'ds Session
    \<Rightarrow> (Inner \<times> 'ds Session) \<times> 'c Effect list" where
  "run E K [] st = (st, [])"
| "run E K (ev # evs) st =
     (case step E K ev st of
        (st', es) \<Rightarrow> (case run E K evs st' of (st'', es') \<Rightarrow> (st'', es @ es')))"

subsection \<open>The buttons the box offers\<close>

text \<open>\<^verbatim>\<open>StickerSetBox::updateButtons\<close>, lines 192 to 208: the buttons it adds.\<close>

datatype Button = lng_stickers_add_pack | lng_cancel | lng_about_done | lng_stickers_share_pack

definition updateButtons :: "Decls \<Rightarrow> Inner \<Rightarrow> 'ds Session \<Rightarrow> Button list" where
  "updateButtons K inner sess =
     (if loaded inner then
        (if notInstalled K inner sess then [lng_stickers_add_pack, lng_cancel]
         else if official inner then [lng_about_done]
         else [lng_stickers_share_pack, lng_cancel])
      else [lng_cancel])"

subsection \<open>What the parser keeps, in the words of the specification\<close>

text \<open>
  Every response document is handed to the store in turn; \<open>processAll\<close> lists the
  pointer each call returns with the store as that call left it.
\<close>

fun processAll :: "('wd, 'ds) Env \<Rightarrow> 'wd list \<Rightarrow> 'ds \<Rightarrow> (DocumentPtr \<times> 'ds) list" where
  "processAll E [] D = []"
| "processAll E (item # v) D =
     (case processDocument E item D of (doc, D') \<Rightarrow> (doc, D') # processAll E v D')"

text \<open>The pack of the specification: the entries that have sticker metadata, in order.\<close>

definition withSticker :: "('wd, 'ds) Env \<Rightarrow> 'wd list \<Rightarrow> 'ds \<Rightarrow> Pack" where
  "withSticker E v D = map fst (filter (\<lambda>(doc, D'). sticker E D' doc) (processAll E v D))"

text \<open>
  The emoji pack of the specification: the references that resolve to a known sticker
  document, in order; the others are left out.
\<close>

definition resolved :: "('wd, 'ds) Env \<Rightarrow> 'ds \<Rightarrow> uint64 list \<Rightarrow> Pack" where
  "resolved E D js =
     concat (map (\<lambda>j. case document E D j of
                         None \<Rightarrow> []
                       | Some doc \<Rightarrow> if sticker E D doc then [doc] else []) js)"

subsection \<open>A sample environment\<close>

text \<open>
  One choice of the outside declarations, for evaluating the model: each flag a bit of
  its own, a wire document a pointer with a mark for sticker metadata, the store the list
  of documents seen.
\<close>

definition K0 :: Decls where
  "K0 = \<lparr>f_installed_date = 1, f_archived = 2, f_masks = 8, cf_featured = 0x20000000,
         cf_not_loaded = 0x40000000, cf_unread = 0x10000000, cf_special = 0x8000000,
         CustomSetId = 0xFFFFFFFFFFFFFFFE\<rparr>"

definition E0 :: "(nat \<times> bool, (nat \<times> bool) list) Env" where
  "E0 = \<lparr>processDocument = (\<lambda>w D. (fst w, w # D)),
         sticker = (\<lambda>D d. map_of D d = Some True),
         document = (\<lambda>D j. case map_of D (unat j) of None \<Rightarrow> None | Some b \<Rightarrow> Some (unat j)),
         EmojiFind = (\<lambda>s. if s = [] then None else Some (length s)),
         original = (\<lambda>e. e),
         GetSetTitle = vtitle,
         ImagesCreate = (\<lambda>s t. Some t)\<rparr>"

definition sess0 :: "(nat \<times> bool) list Session" where
  "sess0 = \<lparr>stickerSets = Map.empty, stickerSetsOrder = [], archivedStickerSetsOrder = [],
            documents = []\<rparr>"

text \<open>The set of the specification's example: id 7, stickers 10 and 11, no flags.\<close>

definition set7 :: MTPDstickerSet where
  "set7 = \<lparr>vid = 7, vaccess_hash = 0, vtitle = ''Cats'', vshort_name = ''cats'', vcount = 2,
           vhash = 0, vflags = 0, vinstalled_date = None, vthumb = None\<rparr>"

definition resp7 :: "(nat \<times> bool) MTPDmessages_stickerSet" where
  "resp7 = \<lparr>vset = set7, vpacks = [\<lparr>vemoticon = ''x'', pack_vdocuments = [10, 99, 11]\<rparr>],
            vdocuments = [(10, True), (5, False), (11, True)]\<rparr>"

definition inner7 :: Inner where
  "inner7 = Inner_new (inputStickerSetID 7 0)"

type_synonym Eff0 = "unit Effect list"
type_synonym State0 = "Inner \<times> (nat \<times> bool) list Session"

text \<open>The install requests among the effects of a run.\<close>

fun isInstallRequest :: "'c Effect \<Rightarrow> bool" where
  "isInstallRequest (SendInstallStickerSet inp) = True"
| "isInstallRequest e = False"

definition installRequests :: "'c Effect list \<Rightarrow> nat" where
  "installRequests es = length (filter isInstallRequest es)"

text \<open>The events that are an install completion.\<close>

fun isInstallDone :: "('wd, 'c) Event \<Rightarrow> bool" where
  "isInstallDone (InstallDone now r) = True"
| "isInstallDone ev = False"

subsection \<open>Sample states\<close>

text \<open>
  A registry that already knows set 7, as a featured and installed set with one sticker.
\<close>

definition set7_known :: StickersSet where
  "set7_known = (Stickers_Set 7 0 ''Cats'' ''cats'' 2 0 0x20000001 50 None)\<lparr>stickers := [3]\<rparr>"

definition sess7 :: "(nat \<times> bool) list Session" where
  "sess7 = sess0\<lparr>stickerSets := [7 \<mapsto> set7_known], stickerSetsOrder := [7]\<rparr>"

text \<open>A loaded dialog for set 7 whose fetched flags carry the archived bit.\<close>

definition innerArch :: Inner where
  "innerArch = inner7\<lparr>m_pack := [10, 11], m_loaded := True, m_setFlags := 2\<rparr>"

definition sessArch :: "(nat \<times> bool) list Session" where
  "sessArch = sess0\<lparr>stickerSetsOrder := [4, 7, 6], archivedStickerSetsOrder := [5, 7, 9]\<rparr>"

text \<open>A custom bucket holding stickers 11, 3 and 10.\<close>

definition customSet :: StickersSet where
  "customSet = (Stickers_Set 0xFFFFFFFFFFFFFFFE 0 ''Custom'' [] 0 0 0x8000000 0 None)
                 \<lparr>stickers := [11, 3, 10]\<rparr>"

definition sessCustom :: "(nat \<times> bool) list Session" where
  "sessCustom = sessArch\<lparr>stickerSets := [0xFFFFFFFFFFFFFFFE \<mapsto> customSet]\<rparr>"

text \<open>A dialog whose set carries the masks bit.\<close>

definition innerMasks :: Inner where
  "innerMasks = innerArch\<lparr>m_setFlags := 8\<rparr>"

text \<open>
  Install is called, the request fails, install is called again, a completion arrives,
  install is called once more.
\<close>

definition trace9 :: "(nat \<times> bool, unit) Event list" where
  "trace9 = [Install 5, InstallFail, Install 6,
             InstallDone 100 messages_stickerSetInstallResultSuccess, Install 7]"

text \<open>Two more install completions, one of each result type.\<close>

definition traceDone :: "(nat \<times> bool, unit) Event list" where
  "traceDone = [InstallDone 200 messages_stickerSetInstallResultSuccess,
                InstallDone 300 (messages_stickerSetInstallResultArchive ())]"

text \<open>A response whose only document has no sticker metadata.\<close>

definition respEmpty :: "(nat \<times> bool) MTPDmessages_stickerSet" where
  "respEmpty = resp7\<lparr>vdocuments := [(5, False)]\<rparr>"

section \<open>Properties\<close>

subsection \<open>The list operations\<close>

text \<open>
  \<^verbatim>\<open>indexOf\<close> followed by \<^verbatim>\<open>removeAt\<close> under the guard \<open>index >= 0\<close>
  removes the first occurrence, and does nothing when there is none.
\<close>

lemma indexOf_bounds: "- 1 \<le> indexOf xs x \<and> indexOf xs x < int (length xs)"
  by (induction xs) (auto simp: Let_def)

lemma indexOf_neg_iff: "indexOf xs x < 0 \<longleftrightarrow> x \<notin> set xs"
proof (induction xs)
  case Nil
  show ?case by simp
next
  case (Cons y ys)
  have "- 1 \<le> indexOf ys x" using indexOf_bounds [of ys x] by simp
  with Cons show ?case by (auto simp: Let_def)
qed

lemma indexOf_absent: "x \<notin> set xs \<Longrightarrow> indexOf xs x = - 1"
  using indexOf_bounds [of xs x] indexOf_neg_iff [of xs x] by simp

lemma indexOf_zero_iff: "indexOf xs x = 0 \<longleftrightarrow> xs \<noteq> [] \<and> hd xs = x"
  using indexOf_bounds [of "tl xs" x] by (cases xs) (auto simp: Let_def)

lemma removeAt_indexOf: "x \<in> set xs \<Longrightarrow> removeAt xs (indexOf xs x) = remove1 x xs"
proof (induction xs)
  case Nil
  then show ?case by simp
next
  case (Cons y ys)
  show ?case
  proof (cases "y = x")
    case True
    then show ?thesis by (simp add: removeAt_def)
  next
    case False
    with Cons.prems have mem: "x \<in> set ys" by simp
    then have nn: "0 \<le> indexOf ys x" using indexOf_neg_iff [of ys x] by simp
    have lt: "indexOf ys x < int (length ys)" using indexOf_bounds [of ys x] by simp
    from Cons.IH [OF mem] nn lt have "take (nat (indexOf ys x)) ys @ drop (Suc (nat (indexOf ys x))) ys = remove1 x ys"
      by (simp add: removeAt_def)
    with False nn lt show ?thesis
      by (simp add: removeAt_def Let_def nat_add_distrib)
  qed
qed

lemma remove_found: "(if indexOf xs x \<ge> 0 then removeAt xs (indexOf xs x) else xs) = remove1 x xs"
proof (cases "x \<in> set xs")
  case True
  then show ?thesis using indexOf_neg_iff [of xs x] removeAt_indexOf [of x xs] by (simp add: Let_def)
next
  case False
  then show ?thesis using indexOf_absent [of x xs] by (simp add: Let_def remove1_idem)
qed

lemma removeEach_fold: "removeEach pack cs = fold remove1 pack cs"
  by (induction pack arbitrary: cs) (simp_all add: Let_def remove_found del: removeAt_def)

lemma count_list_remove1:
  "count_list (remove1 s cs) x = (if x = s then count_list cs x - 1 else count_list cs x)"
  by (induction cs) auto

lemma count_list_fold_remove1:
  "count_list (fold remove1 pack cs) x = count_list cs x - count_list pack x"
  by (induction pack arbitrary: cs) (auto simp: count_list_remove1)

lemma fold_remove1_distinct:
  "distinct cs \<Longrightarrow> fold remove1 pack cs = filter (\<lambda>s. s \<notin> set pack) cs"
proof (induction pack arbitrary: cs)
  case Nil
  show ?case by simp
next
  case (Cons s pack)
  have "fold remove1 (s # pack) cs = fold remove1 pack (remove1 s cs)" by simp
  also have "\<dots> = filter (\<lambda>x. x \<notin> set pack) (remove1 s cs)"
    using Cons.IH [of "remove1 s cs"] Cons.prems by simp
  also have "remove1 s cs = filter (\<lambda>x. x \<noteq> s) cs"
    using Cons.prems by (simp add: distinct_remove1_removeAll removeAll_filter_not_eq) metis
  finally show ?case by (simp add: conj_commute)
qed

lemma fold_remove1_self: "fold remove1 pack pack = []"
proof -
  have "count_list (fold remove1 pack pack) x = 0" for x
    by (simp add: count_list_fold_remove1)
  then have "x \<notin> set (fold remove1 pack pack)" for x
    by (simp add: count_list_0_iff)
  then show ?thesis by (cases "fold remove1 pack pack") auto
qed

lemma dropFromArchivedOrder_remove1:
  "dropFromArchivedOrder b x ao = (if b then remove1 x ao else ao)"
  by (simp add: dropFromArchivedOrder_def Let_def remove_found)

lemma updateOrder_remove1:
  "updateOrder x order = (if indexOf order x = 0 then order else x # remove1 x order)"
proof (cases "x \<in> set order")
  case True
  then have "0 \<le> indexOf order x" using indexOf_neg_iff [of order x] by simp
  with True show ?thesis
    by (auto simp: updateOrder_def Let_def removeAt_indexOf)
next
  case False
  then show ?thesis
    by (simp add: updateOrder_def Let_def indexOf_absent remove1_idem)
qed

subsection \<open>The parser\<close>

lemma parseDocuments_fst: "fst (parseDocuments E v D p) = p @ withSticker E v D"
  by (induction v arbitrary: D p) (simp_all add: withSticker_def split: prod.splits)

lemma resolvePack_resolved: "resolvePack E D js p = p @ resolved E D js"
  by (induction js arbitrary: p) (simp_all add: resolved_def split: option.splits)

lemma resolved_member:
  "d \<in> set (resolved E D js) \<longleftrightarrow> (\<exists>j \<in> set js. document E D j = Some d \<and> sticker E D d)"
proof
  assume "d \<in> set (resolved E D js)"
  then show "\<exists>j \<in> set js. document E D j = Some d \<and> sticker E D d"
    by (auto simp: resolved_def split: option.splits if_splits)
next
  assume "\<exists>j \<in> set js. document E D j = Some d \<and> sticker E D d"
  then obtain j where "j \<in> set js" "document E D j = Some d" "sticker E D d" by blast
  then show "d \<in> set (resolved E D js)"
    by (auto simp: resolved_def intro!: bexI [of _ j])
qed

lemma parsePacks_value:
  "parsePacks E D packs em e = Some p \<Longrightarrow>
     em e = Some p \<or>
     (\<exists>pack \<in> set packs. \<exists>e'. EmojiFind E (vemoticon pack) = Some e' \<and> e = original E e' \<and>
                                p = resolved E D (pack_vdocuments pack))"
proof (induction packs arbitrary: em)
  case Nil
  then show ?case by simp
next
  case (Cons pack packs)
  show ?case
  proof (cases "EmojiFind E (vemoticon pack)")
    case None
    with Cons.prems have "parsePacks E D packs em e = Some p" by simp
    from Cons.IH [OF this] show ?thesis by auto
  next
    case (Some e')
    with Cons.prems have
      "parsePacks E D packs (em(original E e' \<mapsto> resolved E D (pack_vdocuments pack))) e = Some p"
      by (simp add: resolvePack_resolved)
    from Cons.IH [OF this] Some show ?thesis by (auto split: if_splits)
  qed
qed

subsection \<open>What the two completion handlers leave\<close>

lemma gotSet_unfold:
  assumes "gotSet E K data (inner, sess) = ((inner', sess'), es)"
  shows "m_pack inner' = withSticker E (vdocuments data) (documents sess)"
    and "m_emoji inner' = parsePacks E (documents sess') (vpacks data) Map.empty"
    and "documents sess' = snd (parseDocuments E (vdocuments data) (documents sess) [])"
    and "m_setFlags inner' =
           (case stickerSets sess (vid (vset data)) of
              Some it \<Rightarrow> vflags (vset data) OR (flags it AND clientFlagsMask K)
            | None \<Rightarrow> vflags (vset data))"
    and "m_setInstallDate inner' = (case vinstalled_date (vset data) of None \<Rightarrow> 0 | Some d \<Rightarrow> d)"
    and "m_setThumbnail inner' =
           (case vthumb (vset data) of Some t \<Rightarrow> ImagesCreate E (vset data) t | None \<Rightarrow> None)"
    and "m_setId inner' = vid (vset data)"
    and "m_installRequest inner' = m_installRequest inner"
    and "m_loaded inner' = (m_loaded inner \<or> m_pack inner' \<noteq> [])"
    and "es = (if m_pack inner' = [] then [ShowInformBox lng_stickers_not_found]
               else [FireUpdateControls])"
    and "stickerSetsOrder sess' = stickerSetsOrder sess"
    and "archivedStickerSetsOrder sess' = archivedStickerSetsOrder sess"
    and "stickerSets sess' =
           (case stickerSets sess (vid (vset data)) of
              Some it \<Rightarrow>
                (stickerSets sess)(vid (vset data) \<mapsto>
                   it\<lparr>flags := m_setFlags inner', installDate := m_setInstallDate inner',
                      stickers := m_pack inner', emoji := m_emoji inner',
                      thumbnail := m_setThumbnail inner'\<rparr>)
            | None \<Rightarrow> stickerSets sess)"
proof -
  obtain pack D where pd: "parseDocuments E (vdocuments data) (documents sess) [] = (pack, D)"
    by (cases "parseDocuments E (vdocuments data) (documents sess) []")
  have pk: "pack = withSticker E (vdocuments data) (documents sess)"
    using parseDocuments_fst [of E "vdocuments data" "documents sess" "[]"] pd by simp
  note g = assms [unfolded gotSet_def]
  note ss = Let_def pd
  show "m_pack inner' = withSticker E (vdocuments data) (documents sess)"
    using g pk by (auto simp: ss split: if_splits)
  show "m_emoji inner' = parsePacks E (documents sess') (vpacks data) Map.empty"
    using g by (auto simp: ss split: if_splits)
  show "documents sess' = snd (parseDocuments E (vdocuments data) (documents sess) [])"
    using g by (auto simp: ss split: if_splits)
  show "m_setFlags inner' =
           (case stickerSets sess (vid (vset data)) of
              Some it \<Rightarrow> vflags (vset data) OR (flags it AND clientFlagsMask K)
            | None \<Rightarrow> vflags (vset data))"
    using g by (auto simp: ss split: if_splits)
  show "m_setInstallDate inner' = (case vinstalled_date (vset data) of None \<Rightarrow> 0 | Some d \<Rightarrow> d)"
    using g by (auto simp: ss split: if_splits)
  show "m_setThumbnail inner' =
           (case vthumb (vset data) of Some t \<Rightarrow> ImagesCreate E (vset data) t | None \<Rightarrow> None)"
    using g by (auto simp: ss split: if_splits)
  show "m_setId inner' = vid (vset data)"
    using g by (auto simp: ss split: if_splits)
  show "m_installRequest inner' = m_installRequest inner"
    using g by (auto simp: ss split: if_splits)
  show "m_loaded inner' = (m_loaded inner \<or> m_pack inner' \<noteq> [])"
    using g by (auto simp: ss split: if_splits)
  show "es = (if m_pack inner' = [] then [ShowInformBox lng_stickers_not_found]
               else [FireUpdateControls])"
    using g by (auto simp: ss split: if_splits)
  show "stickerSetsOrder sess' = stickerSetsOrder sess"
    using g by (auto simp: ss split: if_splits)
  show "archivedStickerSetsOrder sess' = archivedStickerSetsOrder sess"
    using g by (auto simp: ss split: if_splits)
  show "stickerSets sess' =
           (case stickerSets sess (vid (vset data)) of
              Some it \<Rightarrow>
                (stickerSets sess)(vid (vset data) \<mapsto>
                   it\<lparr>flags := m_setFlags inner', installDate := m_setInstallDate inner',
                      stickers := m_pack inner', emoji := m_emoji inner',
                      thumbnail := m_setThumbnail inner'\<rparr>)
            | None \<Rightarrow> stickerSets sess)"
    using g by (auto simp: ss split: if_splits option.splits)
qed

lemma cleanupCustom_other: "k \<noteq> CustomSetId K \<Longrightarrow> cleanupCustom K pack sets k = sets k"
  by (simp add: cleanupCustom_def Let_def split: option.splits)

lemma cleanupCustom_custom:
  "cleanupCustom K pack sets (CustomSetId K) =
     (case sets (CustomSetId K) of
        None \<Rightarrow> None
      | Some custom \<Rightarrow>
          if fold remove1 pack (stickers custom) = [] then None
          else Some (custom\<lparr>stickers := fold remove1 pack (stickers custom)\<rparr>))"
  by (simp add: cleanupCustom_def Let_def removeEach_fold split: option.splits)

lemma upsertSet_other: "k \<noteq> m_setId inner \<Longrightarrow> upsertSet inner fl d sets k = sets k"
  by (simp add: upsertSet_def Let_def)

lemma upsertSet_self:
  "upsertSet inner fl d sets (m_setId inner) =
     Some ((case sets (m_setId inner) of
              None \<Rightarrow>
                Stickers_Set (m_setId inner) (m_setAccess inner) (m_setTitle inner)
                  (m_setShortName inner) (m_setCount inner) (m_setHash inner) fl d
                  (m_setThumbnail inner)
            | Some it \<Rightarrow> it\<lparr>flags := fl, installDate := d\<rparr>)
           \<lparr>stickers := m_pack inner, emoji := m_emoji inner\<rparr>)"
  by (simp add: upsertSet_def Let_def)

lemma installDone_unfold:
  assumes "installDone K now r (inner, sess) = ((inner', sess'), es)"
  shows "inner' = inner\<lparr>m_setInstallDate := now,
                         m_setFlags := (m_setFlags inner AND NOT (f_archived K))
                                        OR f_installed_date K\<rparr>"
    and "archivedStickerSetsOrder sess' =
           (if m_setFlags inner AND f_archived K \<noteq> 0
            then remove1 (m_setId inner) (archivedStickerSetsOrder sess)
            else archivedStickerSetsOrder sess)"
    and "stickerSetsOrder sess' = updateOrder (m_setId inner) (stickerSetsOrder sess)"
    and "stickerSets sess' =
           cleanupCustom K (m_pack inner)
             (upsertSet inner' (m_setFlags inner') now (stickerSets sess))"
    and "documents sess' = documents sess"
    and "es = (case r of
                 messages_stickerSetInstallResultArchive c \<Rightarrow> [ApplyArchivedResult c]
               | messages_stickerSetInstallResultSuccess \<Rightarrow>
                   (if m_setFlags inner AND f_archived K \<noteq> 0 then [WriteArchivedStickers]
                    else [])
                   @ [WriteInstalledStickers, NotifyStickersUpdated])
              @ [FireSetInstalled (m_setId inner)]"
  using assms
  by (auto simp: installDone_def Let_def dropFromArchivedOrder_remove1)

lemma flags_after_install:
  fixes a :: Flags
  assumes "arch AND inst = 0"
  shows "((a AND NOT arch) OR inst) AND arch = 0"
    and "((a AND NOT arch) OR inst) AND inst = inst"
proof -
  have d: "\<not> (bit arch n \<and> bit inst n)" for n
    using assms bit_and_iff [of arch inst n] by auto
  show "((a AND NOT arch) OR inst) AND arch = 0"
    by (rule bit_eqI) (use d in \<open>auto simp: bit_and_iff bit_or_iff bit_not_iff\<close>)
  show "((a AND NOT arch) OR inst) AND inst = inst"
    by (rule bit_eqI) (auto simp: bit_and_iff bit_or_iff bit_not_iff)
qed

subsection \<open>The install request over a run of events\<close>

lemma installRequests_append: "installRequests (xs @ ys) = installRequests xs + installRequests ys"
  by (simp add: installRequests_def)

lemma step_keeps_request:
  assumes "step E K ev (inner, sess) = ((inner', sess'), es)"
    and "m_installRequest inner \<noteq> 0"
  shows "m_installRequest inner' = m_installRequest inner \<and> installRequests es = 0"
proof (cases ev)
  case (GotSet data)
  with assms(1) have g: "gotSet E K data (inner, sess) = ((inner', sess'), es)" by simp
  note u = gotSet_unfold [OF g]
  show ?thesis using u(8) u(10) by (simp add: installRequests_def)
next
  case FetchFail
  with assms(1) show ?thesis by (auto simp: fetchFail_def installRequests_def)
next
  case (Install rid)
  with assms show ?thesis by (auto simp: install_def installRequests_def split: if_splits)
next
  case (InstallDone now r)
  with assms(1) have g: "installDone K now r (inner, sess) = ((inner', sess'), es)" by simp
  note u = installDone_unfold [OF g]
  show ?thesis using u(1) u(6)
    by (simp add: installRequests_def split: MTPmessages_StickerSetInstallResult.splits)
next
  case InstallFail
  with assms(1) show ?thesis by (auto simp: installFail_def installRequests_def)
qed

lemma step_first_request:
  assumes "step E K ev (inner, sess) = ((inner', sess'), es)"
    and "m_installRequest inner = 0"
    and "\<forall>rid. ev = Install rid \<longrightarrow> rid \<noteq> 0"
  shows "installRequests es = 0 \<or> (installRequests es = 1 \<and> m_installRequest inner' \<noteq> 0)"
proof (cases ev)
  case (GotSet data)
  with assms(1) have g: "gotSet E K data (inner, sess) = ((inner', sess'), es)" by simp
  note u = gotSet_unfold [OF g]
  show ?thesis using u(10) by (simp add: installRequests_def)
next
  case FetchFail
  with assms(1) show ?thesis by (auto simp: fetchFail_def installRequests_def)
next
  case (Install rid)
  with assms show ?thesis by (auto simp: install_def installRequests_def split: if_splits)
next
  case (InstallDone now r)
  with assms(1) have g: "installDone K now r (inner, sess) = ((inner', sess'), es)" by simp
  note u = installDone_unfold [OF g]
  show ?thesis using u(6)
    by (simp add: installRequests_def split: MTPmessages_StickerSetInstallResult.splits)
next
  case InstallFail
  with assms(1) show ?thesis by (auto simp: installFail_def installRequests_def)
qed

lemma run_keeps_request:
  assumes "run E K evs (inner, sess) = ((inner', sess'), es)"
    and "m_installRequest inner \<noteq> 0"
  shows "m_installRequest inner' = m_installRequest inner \<and> installRequests es = 0"
  using assms
proof (induction evs arbitrary: inner sess es)
  case Nil
  then show ?case by (simp add: installRequests_def)
next
  case (Cons ev evs)
  obtain i1 s1 e1 where s: "step E K ev (inner, sess) = ((i1, s1), e1)"
    by (metis prod.collapse)
  from Cons.prems(1) s obtain e2 where
    r: "run E K evs (i1, s1) = ((inner', sess'), e2)" and eq: "es = e1 @ e2"
    by (auto split: prod.splits)
  note k = step_keeps_request [OF s Cons.prems(2)]
  then have "m_installRequest i1 \<noteq> 0" using Cons.prems(2) by simp
  from Cons.IH [OF r this] k eq show ?case by (simp add: installRequests_append)
qed

lemma run_at_most_one:
  assumes "run E K evs (inner, sess) = ((inner', sess'), es)"
    and "\<forall>rid. Install rid \<in> set evs \<longrightarrow> rid \<noteq> 0"
  shows "installRequests es \<le> 1"
  using assms
proof (induction evs arbitrary: inner sess es)
  case Nil
  then show ?case by (simp add: installRequests_def)
next
  case (Cons ev evs)
  obtain i1 s1 e1 where s: "step E K ev (inner, sess) = ((i1, s1), e1)"
    by (metis prod.collapse)
  from Cons.prems(1) s obtain e2 where
    r: "run E K evs (i1, s1) = ((inner', sess'), e2)" and eq: "es = e1 @ e2"
    by (auto split: prod.splits)
  have rest: "\<forall>rid. Install rid \<in> set evs \<longrightarrow> rid \<noteq> 0" using Cons.prems(2) by simp
  have here: "\<forall>rid. ev = Install rid \<longrightarrow> rid \<noteq> 0" using Cons.prems(2) by simp
  show ?case
  proof (cases "m_installRequest inner = 0")
    case True
    from step_first_request [OF s True here]
    show ?thesis
    proof
      assume "installRequests e1 = 0"
      with Cons.IH [OF r rest] eq show ?thesis by (simp add: installRequests_append)
    next
      assume a: "installRequests e1 = 1 \<and> m_installRequest i1 \<noteq> 0"
      with run_keeps_request [OF r] eq show ?thesis by (simp add: installRequests_append)
    qed
  next
    case False
    from step_keeps_request [OF s False] have "installRequests e1 = 0" by simp
    with Cons.IH [OF r rest] eq show ?thesis by (simp add: installRequests_append)
  qed
qed

lemma run_installDone_archived:
  assumes "f_archived K AND f_installed_date K = 0"
    and "run E K evs (inner, sess) = ((inner', sess'), es)"
    and "\<forall>ev \<in> set evs. isInstallDone ev"
    and "m_setFlags inner AND f_archived K = 0"
  shows "archivedStickerSetsOrder sess' = archivedStickerSetsOrder sess
       \<and> m_setFlags inner' AND f_archived K = 0"
  using assms(2-4)
proof (induction evs arbitrary: inner sess es)
  case Nil
  then show ?case by simp
next
  case (Cons ev evs)
  from Cons.prems(2) obtain now r where ev: "ev = InstallDone now r"
    by (cases ev) auto
  obtain i1 s1 e1 where s: "installDone K now r (inner, sess) = ((i1, s1), e1)"
    by (metis prod.collapse)
  from Cons.prems(1) s ev obtain e2 where
    r: "run E K evs (i1, s1) = ((inner', sess'), e2)"
    by (auto split: prod.splits)
  note u = installDone_unfold [OF s]
  have keep: "archivedStickerSetsOrder s1 = archivedStickerSetsOrder sess"
    using u(2) Cons.prems(3) by simp
  have clear: "m_setFlags i1 AND f_archived K = 0"
    using u(1) flags_after_install(1) [OF assms(1), of "m_setFlags inner"] by simp
  have rest: "\<forall>ev \<in> set evs. isInstallDone ev" using Cons.prems(2) by simp
  from Cons.IH [OF r rest clear] keep show ?case by simp
qed

subsection \<open>Fetch completion\<close>

text \<open>
  C1. When the registry already holds the fetched set's id, \<^verbatim>\<open>gotSet\<close> writes into
  that entry the payload's flags OR-ed with the entry's old client-only bits (featured,
  not loaded, unread, special), so every client-only bit that was set stays set even when
  the payload's flags omit it, and it replaces the entry's stickers, emoji map and
  thumbnail with the freshly parsed ones.
\<close>

theorem gotSet_keeps_client_flags:
  assumes "stickerSets sess (vid (vset data)) = Some it"
    and "gotSet E K data (inner, sess) = ((inner', sess'), es)"
  shows "stickerSets sess' (vid (vset data)) =
           Some (it\<lparr>flags := vflags (vset data) OR
                              (flags it AND (cf_featured K OR cf_not_loaded K OR cf_unread K
                                              OR cf_special K)),
                     installDate := m_setInstallDate inner',
                     stickers := withSticker E (vdocuments data) (documents sess),
                     emoji := parsePacks E (documents sess') (vpacks data) Map.empty,
                     thumbnail := (case vthumb (vset data) of
                                     Some t \<Rightarrow> ImagesCreate E (vset data) t | None \<Rightarrow> None)\<rparr>)
       \<and> (\<forall>it'. stickerSets sess' (vid (vset data)) = Some it' \<longrightarrow>
            (\<forall>n. bit (flags it) n \<and>
                  bit (cf_featured K OR cf_not_loaded K OR cf_unread K OR cf_special K) n
                  \<longrightarrow> bit (flags it') n) \<and>
            (\<forall>n. bit (vflags (vset data)) n \<longrightarrow> bit (flags it') n) \<and>
            flags it' = m_setFlags inner' \<and> stickers it' = m_pack inner' \<and>
            emoji it' = m_emoji inner' \<and> thumbnail it' = m_setThumbnail inner')"
proof -
  note u = gotSet_unfold [OF assms(2)]
  have fl: "m_setFlags inner' = vflags (vset data) OR (flags it AND clientFlagsMask K)"
    using u(4) assms(1) by simp
  have reg: "stickerSets sess' (vid (vset data)) =
      Some (it\<lparr>flags := m_setFlags inner', installDate := m_setInstallDate inner',
               stickers := m_pack inner', emoji := m_emoji inner',
               thumbnail := m_setThumbnail inner'\<rparr>)"
    using u(13) assms(1) by simp
  show ?thesis
    unfolding reg using fl u(1) u(2) u(6)
    by (simp add: clientFlagsMask_def bit_or_iff bit_and_iff)
qed

theorem gotSet_keeps_client_flags_witness:
  "stickerSets sess7 7 = Some set7_known
   \<and> flags set7_known = 0x20000001
   \<and> map_option flags
        (stickerSets (snd (fst (gotSet E0 K0 resp7 (inner7, sess7) :: State0 \<times> Eff0))) 7)
       = Some 0x20000000
   \<and> map_option stickers
        (stickerSets (snd (fst (gotSet E0 K0 resp7 (inner7, sess7) :: State0 \<times> Eff0))) 7)
       = Some [10, 11]"
proof -
  have h: "stickerSets sess7 (vid (vset resp7)) = Some set7_known"
    by (simp add: sess7_def sess0_def resp7_def set7_def)
  obtain inner' sess' es where
    g: "(gotSet E0 K0 resp7 (inner7, sess7) :: State0 \<times> Eff0) = ((inner', sess'), es)"
    by (metis prod.collapse)
  have id7: "vid (vset resp7) = 7" by (simp add: resp7_def set7_def)
  from gotSet_keeps_client_flags [OF h g] show ?thesis
    unfolding g id7
    by (simp add: sess7_def sess0_def resp7_def set7_def set7_known_def Stickers_Set_def K0_def
        E0_def withSticker_def)
qed

text \<open>
  C2. The statement that \<^verbatim>\<open>gotSet\<close> inserts a set whose id the registry does not
  hold fails: fetching set 7 with stickers 10 and 11 and no flags into the empty registry
  leaves the registry without an entry for 7.
\<close>

theorem gotSet_absent_counterexample:
  "stickerSets (snd (fst (gotSet E0 K0 resp7 (inner7, sess0) :: State0 \<times> Eff0))) 7 = None"
  by (simp add: gotSet_def Let_def sess0_def resp7_def set7_def E0_def split: prod.splits)

text \<open>
  C2, as the code has it. When the registry does not hold the fetched set's id,
  \<^verbatim>\<open>gotSet\<close> leaves the registry as it was; the parsed set is kept in the dialog's
  own fields, with the flags exactly as the fetch reported them and the parsed pack.
\<close>

theorem gotSet_absent_registry_unchanged:
  assumes "stickerSets sess (vid (vset data)) = None"
    and "gotSet E K data (inner, sess) = ((inner', sess'), es)"
  shows "stickerSets sess' = stickerSets sess
       \<and> stickerSets sess' (vid (vset data)) = None
       \<and> m_setId inner' = vid (vset data)
       \<and> m_setFlags inner' = vflags (vset data)
       \<and> m_pack inner' = withSticker E (vdocuments data) (documents sess)"
proof -
  note u = gotSet_unfold [OF assms(2)]
  show ?thesis using u(1) u(4) u(7) u(13) assms(1) by simp
qed

theorem gotSet_absent_registry_unchanged_witness:
  "stickerSets sess0 7 = None
   \<and> stickerSets (snd (fst (gotSet E0 K0 resp7 (inner7, sess0) :: State0 \<times> Eff0))) = Map.empty
   \<and> m_pack (fst (fst (gotSet E0 K0 resp7 (inner7, sess0) :: State0 \<times> Eff0))) = [10, 11]
   \<and> m_setFlags (fst (fst (gotSet E0 K0 resp7 (inner7, sess0) :: State0 \<times> Eff0))) = 0"
proof -
  have h: "stickerSets sess0 (vid (vset resp7)) = None"
    by (simp add: sess0_def)
  obtain inner' sess' es where
    g: "(gotSet E0 K0 resp7 (inner7, sess0) :: State0 \<times> Eff0) = ((inner', sess'), es)"
    by (metis prod.collapse)
  from gotSet_absent_registry_unchanged [OF h g] show ?thesis
    unfolding g
    by (simp add: sess0_def resp7_def set7_def E0_def withSticker_def)
qed

text \<open>
  C8. The pack \<^verbatim>\<open>gotSet\<close> builds is the response's documents that have sticker
  metadata, in order. When it is empty the handler shows the "stickers not found" box and
  returns: the loaded flag keeps its value, the update of the controls is not fired, and
  the box offers no button but Cancel. An emoji pack holds exactly the references that
  resolve to a known sticker document; the others are left out without any error.
\<close>

theorem gotSet_empty_pack_not_found:
  assumes "gotSet E K data (inner, sess) = ((inner', sess'), es :: 'c Effect list)"
  shows "m_pack inner' = withSticker E (vdocuments data) (documents sess)
       \<and> (m_pack inner' = [] \<longrightarrow>
            es = [ShowInformBox lng_stickers_not_found] \<and> m_loaded inner' = m_loaded inner \<and>
            \<not> loaded inner' \<and> \<not> notInstalled K inner' sess' \<and>
            updateButtons K inner' sess' = [lng_cancel])
       \<and> (m_pack inner' \<noteq> [] \<longrightarrow> es = [FireUpdateControls] \<and> m_loaded inner')
       \<and> (\<forall>js. resolvePack E (documents sess') js [] = resolved E (documents sess') js)
       \<and> (\<forall>js d. d \<in> set (resolved E (documents sess') js) \<longleftrightarrow>
                   (\<exists>j \<in> set js. document E (documents sess') j = Some d \<and>
                                 sticker E (documents sess') d))
       \<and> (\<forall>e p. m_emoji inner' e = Some p \<longrightarrow>
            (\<exists>pack \<in> set (vpacks data). \<exists>e'.
                EmojiFind E (vemoticon pack) = Some e' \<and> e = original E e' \<and>
                p = resolved E (documents sess') (pack_vdocuments pack)))"
proof -
  note u = gotSet_unfold [OF assms]
  have empty: "es = [ShowInformBox lng_stickers_not_found] \<and> m_loaded inner' = m_loaded inner \<and>
            \<not> loaded inner' \<and> \<not> notInstalled K inner' sess' \<and>
            updateButtons K inner' sess' = [lng_cancel]"
    if "m_pack inner' = []"
    using that u(9) u(10)
    by (simp add: loaded_def notInstalled_def updateButtons_def split: option.splits)
  have full: "es = [FireUpdateControls] \<and> m_loaded inner'" if "m_pack inner' \<noteq> []"
    using that u(9) u(10) by simp
  have em: "\<exists>pack \<in> set (vpacks data). \<exists>e'.
                EmojiFind E (vemoticon pack) = Some e' \<and> e = original E e' \<and>
                p = resolved E (documents sess') (pack_vdocuments pack)"
    if "m_emoji inner' e = Some p" for e p
    using parsePacks_value [of E "documents sess'" "vpacks data" Map.empty e p] that u(2)
    by simp
  show ?thesis
    using u(1) empty full em by (simp add: resolvePack_resolved resolved_member)
qed

theorem gotSet_empty_pack_not_found_witness:
  "m_pack (fst (fst (gotSet E0 K0 respEmpty (inner7, sess0) :: State0 \<times> Eff0))) = []
   \<and> snd (gotSet E0 K0 respEmpty (inner7, sess0) :: State0 \<times> Eff0)
       = [ShowInformBox lng_stickers_not_found]
   \<and> m_pack (fst (fst (gotSet E0 K0 resp7 (inner7, sess0) :: State0 \<times> Eff0))) = [10, 11]
   \<and> m_emoji (fst (fst (gotSet E0 K0 resp7 (inner7, sess0) :: State0 \<times> Eff0))) 1
       = Some [10, 11]"
proof -
  obtain i1 s1 e1 where
    g1: "(gotSet E0 K0 respEmpty (inner7, sess0) :: State0 \<times> Eff0) = ((i1, s1), e1)"
    by (metis prod.collapse)
  obtain i2 s2 e2 where
    g2: "(gotSet E0 K0 resp7 (inner7, sess0) :: State0 \<times> Eff0) = ((i2, s2), e2)"
    by (metis prod.collapse)
  note t1 = gotSet_empty_pack_not_found [OF g1]
  have p1: "m_pack i1 = []"
    using t1 by (simp add: respEmpty_def resp7_def sess0_def E0_def withSticker_def)
  have e1: "e1 = [ShowInformBox lng_stickers_not_found]"
    using t1 p1 by blast
  have p2: "m_pack i2 = [10, 11]" and m2: "m_emoji i2 1 = Some [10, 11]"
    using g2
    by (auto simp: gotSet_def Let_def resp7_def set7_def sess0_def E0_def split: prod.splits)
  show ?thesis unfolding g1 g2 using p1 e1 p2 m2 by simp
qed

text \<open>
  C10. For a freshly constructed dialog, \<^verbatim>\<open>loaded()\<close> is false before the fetch
  answers; after a failed fetch the loaded flag is set and the pack is empty, so it is
  false; after a successful fetch it is true exactly when the parsed pack is not empty,
  and with an empty parsed pack the loaded flag stays unset and the title stays
  "loading".
\<close>

theorem loaded_iff_fetched_stickers:
  assumes "fetchFail (Inner_new inp) = (failed, esf :: 'c Effect list)"
    and "gotSet E K data (Inner_new inp, sess) = ((got, sess'), esg :: 'c Effect list)"
  shows "\<not> loaded (Inner_new inp)
       \<and> m_loaded failed \<and> m_pack failed = [] \<and> \<not> loaded failed
       \<and> (loaded got \<longleftrightarrow> withSticker E (vdocuments data) (documents sess) \<noteq> [])
       \<and> (withSticker E (vdocuments data) (documents sess) = [] \<longrightarrow>
            \<not> m_loaded got \<and> \<not> loaded got \<and> Inner_title got = lng_contacts_loading \<and>
            esg = [ShowInformBox lng_stickers_not_found])"
proof -
  have new: "\<not> m_loaded (Inner_new inp)" "m_pack (Inner_new inp) = []"
    by (simp_all add: Inner_new_def Inner_fields0_def split: MTPInputStickerSet.splits)
  have f: "failed = (Inner_new inp)\<lparr>m_loaded := True\<rparr>"
    using assms(1) by (simp add: fetchFail_def)
  note u = gotSet_unfold [OF assms(2)]
  have l: "m_loaded got \<longleftrightarrow> m_pack got \<noteq> []" using u(9) new(1) by simp
  show ?thesis
    using new f l u(1) u(10) by (simp add: loaded_def Inner_title_def)
qed

theorem loaded_iff_fetched_stickers_witness:
  "\<not> loaded (fst (fetchFail (Inner_new (inputStickerSetID 7 0)) :: Inner \<times> Eff0))
   \<and> \<not> loaded (fst (fst (gotSet E0 K0 respEmpty (Inner_new (inputStickerSetID 7 0), sess0)
                           :: State0 \<times> Eff0)))
   \<and> Inner_title (fst (fst (gotSet E0 K0 respEmpty (Inner_new (inputStickerSetID 7 0), sess0)
                           :: State0 \<times> Eff0))) = lng_contacts_loading
   \<and> loaded (fst (fst (gotSet E0 K0 resp7 (Inner_new (inputStickerSetID 7 0), sess0)
                           :: State0 \<times> Eff0)))"
proof -
  obtain failed esf where
    f: "(fetchFail (Inner_new (inputStickerSetID 7 0)) :: Inner \<times> Eff0) = (failed, esf)"
    by (metis prod.collapse)
  obtain i1 s1 e1 where
    g1: "(gotSet E0 K0 respEmpty (Inner_new (inputStickerSetID 7 0), sess0) :: State0 \<times> Eff0)
           = ((i1, s1), e1)"
    by (metis prod.collapse)
  obtain i2 s2 e2 where
    g2: "(gotSet E0 K0 resp7 (Inner_new (inputStickerSetID 7 0), sess0) :: State0 \<times> Eff0)
           = ((i2, s2), e2)"
    by (metis prod.collapse)
  have w1: "withSticker E0 (vdocuments respEmpty) (documents sess0) = []"
    by (simp add: respEmpty_def resp7_def sess0_def E0_def withSticker_def)
  have w2: "withSticker E0 (vdocuments resp7) (documents sess0) \<noteq> []"
    by (simp add: resp7_def sess0_def E0_def withSticker_def)
  from loaded_iff_fetched_stickers [OF f g1] loaded_iff_fetched_stickers [OF f g2] w1 w2
  show ?thesis unfolding f g1 g2 by simp
qed

subsection \<open>Install completion\<close>

text \<open>
  C3. Provided the archived bit and the installed bit do not overlap:
  \<^verbatim>\<open>installDone\<close> on a dialog whose flags carry the archived bit removes the first
  occurrence of the set's id from the archived order, and leaves that order alone when
  the id is not in it; however many further completions arrive on the same dialog, the
  archived order stays as the first one left it. The archived bit is cleared, the
  installed bit is set and the install date is the current time, in the dialog and in
  the registry entry.
\<close>

theorem installDone_archived_once:
  assumes "f_archived K AND f_installed_date K = 0"
    and "installDone K now r (inner, sess) = ((inner1, sess1), es1)"
    and "\<forall>ev \<in> set evs. isInstallDone ev"
    and "run E K evs (inner1, sess1) = ((inner2, sess2), es2)"
  shows "archivedStickerSetsOrder sess1 =
           (if m_setFlags inner AND f_archived K \<noteq> 0
            then remove1 (m_setId inner) (archivedStickerSetsOrder sess)
            else archivedStickerSetsOrder sess)
       \<and> (m_setId inner \<notin> set (archivedStickerSetsOrder sess) \<longrightarrow>
            archivedStickerSetsOrder sess1 = archivedStickerSetsOrder sess)
       \<and> archivedStickerSetsOrder sess2 = archivedStickerSetsOrder sess1
       \<and> m_setFlags inner1 AND f_archived K = 0
       \<and> m_setFlags inner1 AND f_installed_date K = f_installed_date K
       \<and> m_setInstallDate inner1 = now
       \<and> (m_setId inner \<noteq> CustomSetId K \<longrightarrow>
            map_option flags (stickerSets sess1 (m_setId inner)) = Some (m_setFlags inner1) \<and>
            map_option installDate (stickerSets sess1 (m_setId inner)) = Some now)"
proof -
  note u1 = installDone_unfold [OF assms(2)]
  note f = flags_after_install [OF assms(1), of "m_setFlags inner"]
  have fl1: "m_setFlags inner1 = (m_setFlags inner AND NOT (f_archived K)) OR f_installed_date K"
    and d1: "m_setInstallDate inner1 = now" and id1: "m_setId inner1 = m_setId inner"
    using u1(1) by simp_all
  have a: "m_setFlags inner1 AND f_archived K = 0" using fl1 f(1) by simp
  have b: "m_setFlags inner1 AND f_installed_date K = f_installed_date K" using fl1 f(2) by simp
  have c: "archivedStickerSetsOrder sess2 = archivedStickerSetsOrder sess1"
    using run_installDone_archived [OF assms(1) assms(4) assms(3) a] by simp
  have e: "m_setId inner \<notin> set (archivedStickerSetsOrder sess) \<longrightarrow>
            archivedStickerSetsOrder sess1 = archivedStickerSetsOrder sess"
    using u1(2) by (simp add: remove1_idem)
  have reg: "m_setId inner \<noteq> CustomSetId K \<longrightarrow>
            map_option flags (stickerSets sess1 (m_setId inner)) = Some (m_setFlags inner1) \<and>
            map_option installDate (stickerSets sess1 (m_setId inner)) = Some now"
  proof
    assume ne: "m_setId inner \<noteq> CustomSetId K"
    have "stickerSets sess1 (m_setId inner) =
            upsertSet inner1 (m_setFlags inner1) now (stickerSets sess) (m_setId inner1)"
      using u1(4) ne id1 by (simp add: cleanupCustom_other)
    then show "map_option flags (stickerSets sess1 (m_setId inner)) = Some (m_setFlags inner1) \<and>
            map_option installDate (stickerSets sess1 (m_setId inner)) = Some now"
      by (simp add: upsertSet_self Stickers_Set_def split: option.splits)
  qed
  show ?thesis using u1(2) e c a b d1 reg by simp
qed

theorem installDone_archived_once_witness:
  "f_archived K0 AND f_installed_date K0 = 0
   \<and> isInstallDone (traceDone ! 0) \<and> isInstallDone (traceDone ! 1) \<and> length traceDone = 2
   \<and> archivedStickerSetsOrder sessArch = [5, 7, 9]
   \<and> archivedStickerSetsOrder
        (snd (fst (installDone K0 100 messages_stickerSetInstallResultSuccess
                    (innerArch, sessArch) :: State0 \<times> Eff0))) = [5, 9]
   \<and> archivedStickerSetsOrder
        (snd (fst (run E0 K0 traceDone
                    (fst (installDone K0 100 messages_stickerSetInstallResultSuccess
                           (innerArch, sessArch) :: State0 \<times> Eff0)))))
       = [5, 9]
   \<and> m_setFlags (fst (fst (installDone K0 100 messages_stickerSetInstallResultSuccess
                    (innerArch, sessArch) :: State0 \<times> Eff0))) = 1"
proof -
  have h: "f_archived K0 AND f_installed_date K0 = 0" by (simp add: K0_def)
  have d: "\<forall>ev \<in> set traceDone. isInstallDone ev" by (simp add: traceDone_def)
  obtain inner1 sess1 es1 where
    g1: "(installDone K0 100 messages_stickerSetInstallResultSuccess (innerArch, sessArch)
           :: State0 \<times> Eff0) = ((inner1, sess1), es1)"
    by (metis prod.collapse)
  obtain inner2 sess2 es2 where
    g2: "run E0 K0 traceDone (inner1, sess1) = ((inner2, sess2), es2)"
    by (metis prod.collapse)
  have fl: "m_setFlags inner1 = 1"
    using g1
    by (auto simp: installDone_def Let_def innerArch_def inner7_def Inner_new_def
        Inner_fields0_def K0_def)
  from installDone_archived_once [OF h g1 d g2] fl show ?thesis
    unfolding g1 fst_conv snd_conv g2
    by (simp add: K0_def innerArch_def inner7_def Inner_new_def Inner_fields0_def sessArch_def
        sess0_def traceDone_def)
qed

text \<open>
  C4. After \<^verbatim>\<open>installDone\<close> the set's id is at index 0 of the install order: an id
  found at a later index is removed there and put in front, an id already at index 0
  leaves the order unchanged, an absent id is put in front.
\<close>

theorem installDone_order_front:
  assumes "installDone K now r (inner, sess) = ((inner', sess'), es)"
  shows "stickerSetsOrder sess' \<noteq> []
       \<and> hd (stickerSetsOrder sess') = m_setId inner
       \<and> indexOf (stickerSetsOrder sess') (m_setId inner) = 0
       \<and> (indexOf (stickerSetsOrder sess) (m_setId inner) > 0 \<longrightarrow>
            stickerSetsOrder sess' =
              m_setId inner # removeAt (stickerSetsOrder sess)
                                (indexOf (stickerSetsOrder sess) (m_setId inner)) \<and>
            stickerSetsOrder sess' = m_setId inner # remove1 (m_setId inner) (stickerSetsOrder sess))
       \<and> (indexOf (stickerSetsOrder sess) (m_setId inner) = 0 \<longrightarrow>
            stickerSetsOrder sess' = stickerSetsOrder sess)
       \<and> (m_setId inner \<notin> set (stickerSetsOrder sess) \<longrightarrow>
            stickerSetsOrder sess' = m_setId inner # stickerSetsOrder sess)"
proof -
  note u = installDone_unfold [OF assms]
  let ?o = "stickerSetsOrder sess" and ?x = "m_setId inner"
  have o': "stickerSetsOrder sess' = (if indexOf ?o ?x = 0 then ?o else ?x # remove1 ?x ?o)"
    using u(3) by (simp add: updateOrder_remove1)
  have front: "stickerSetsOrder sess' \<noteq> [] \<and> hd (stickerSetsOrder sess') = ?x"
    using o' indexOf_zero_iff [of ?o ?x] by auto
  then have z: "indexOf (stickerSetsOrder sess') ?x = 0"
    using indexOf_zero_iff [of "stickerSetsOrder sess'" ?x] by simp
  have pos: "indexOf ?o ?x > 0 \<longrightarrow>
       stickerSetsOrder sess' = ?x # removeAt ?o (indexOf ?o ?x) \<and>
       stickerSetsOrder sess' = ?x # remove1 ?x ?o"
    using u(3) o' by (auto simp: updateOrder_def Let_def)
  have absent: "?x \<notin> set ?o \<longrightarrow> stickerSetsOrder sess' = ?x # ?o"
    using o' indexOf_absent [of ?x ?o] by (auto simp: remove1_idem)
  show ?thesis using front z pos absent o' by simp
qed

theorem installDone_order_front_witness:
  "indexOf (stickerSetsOrder sessArch) (m_setId innerArch) > 0
   \<and> stickerSetsOrder
        (snd (fst (installDone K0 100 messages_stickerSetInstallResultSuccess
                    (innerArch, sessArch) :: State0 \<times> Eff0))) = [7, 4, 6]"
proof -
  obtain inner1 sess1 es1 where
    g1: "(installDone K0 100 messages_stickerSetInstallResultSuccess (innerArch, sessArch)
           :: State0 \<times> Eff0) = ((inner1, sess1), es1)"
    by (metis prod.collapse)
  have i: "indexOf (stickerSetsOrder sessArch) (m_setId innerArch) = 1"
    by (simp add: sessArch_def innerArch_def inner7_def Inner_new_def Inner_fields0_def sess0_def)
  from installDone_order_front [OF g1] i show ?thesis
    unfolding g1
    by (simp add: sessArch_def innerArch_def inner7_def Inner_new_def Inner_fields0_def sess0_def removeAt_def)
qed

text \<open>
  C5. \<^verbatim>\<open>installDone\<close> removes from the custom bucket's sticker list one occurrence
  of every sticker of the installed pack found there, and erases the bucket from the
  registry when its list becomes empty. With a bucket list free of duplicates no sticker
  of the pack remains in it and the other stickers stay in order.
\<close>

theorem installDone_custom_bucket:
  assumes "installDone K now r (inner, sess) = ((inner', sess'), es)"
  shows "(m_setId inner \<noteq> CustomSetId K \<longrightarrow>
            stickerSets sess' (CustomSetId K) =
              (case stickerSets sess (CustomSetId K) of
                 None \<Rightarrow> None
               | Some custom \<Rightarrow>
                   if removeEach (m_pack inner) (stickers custom) = [] then None
                   else Some (custom\<lparr>stickers := removeEach (m_pack inner) (stickers custom)\<rparr>)))
       \<and> (m_setId inner = CustomSetId K \<longrightarrow> stickerSets sess' (CustomSetId K) = None)
       \<and> (\<forall>custom. stickerSets sess (CustomSetId K) = Some custom \<longrightarrow>
            removeEach (m_pack inner) (stickers custom)
              = fold remove1 (m_pack inner) (stickers custom)
            \<and> (\<forall>S. count_list (removeEach (m_pack inner) (stickers custom)) S
                      = count_list (stickers custom) S - count_list (m_pack inner) S)
            \<and> (distinct (stickers custom) \<longrightarrow>
                 removeEach (m_pack inner) (stickers custom)
                   = filter (\<lambda>s. s \<notin> set (m_pack inner)) (stickers custom)
                 \<and> (\<forall>S \<in> set (m_pack inner).
                       S \<notin> set (removeEach (m_pack inner) (stickers custom)))))"
proof -
  note u = installDone_unfold [OF assms(1)]
  have id1: "m_setId inner' = m_setId inner" and pk: "m_pack inner' = m_pack inner"
    using u(1) by simp_all
  have after: "stickerSets sess' (CustomSetId K) =
          cleanupCustom K (m_pack inner)
            (upsertSet inner' (m_setFlags inner') now (stickerSets sess)) (CustomSetId K)"
    using u(4) by simp
  have other: "stickerSets sess' (CustomSetId K) =
           (case stickerSets sess (CustomSetId K) of
              None \<Rightarrow> None
            | Some custom \<Rightarrow>
                if removeEach (m_pack inner) (stickers custom) = [] then None
                else Some (custom\<lparr>stickers := removeEach (m_pack inner) (stickers custom)\<rparr>))"
    if ne: "m_setId inner \<noteq> CustomSetId K"
  proof -
    have "upsertSet inner' (m_setFlags inner') now (stickerSets sess) (CustomSetId K)
            = stickerSets sess (CustomSetId K)"
      using ne id1 by (simp add: upsertSet_other)
    with after show ?thesis
      by (simp add: cleanupCustom_custom removeEach_fold split: option.splits)
  qed
  have same: "stickerSets sess' (CustomSetId K) = None" if eq: "m_setId inner = CustomSetId K"
  proof -
    have k: "m_setId inner' = CustomSetId K" using eq id1 by simp
    have "\<exists>it. upsertSet inner' (m_setFlags inner') now (stickerSets sess) (CustomSetId K)
                 = Some it \<and> stickers it = m_pack inner"
      using upsertSet_self [of inner' "m_setFlags inner'" now "stickerSets sess"] k pk by simp
    then obtain it where
      "upsertSet inner' (m_setFlags inner') now (stickerSets sess) (CustomSetId K) = Some it"
      and "stickers it = m_pack inner"
      by blast
    with after show ?thesis
      by (simp add: cleanupCustom_custom fold_remove1_self)
  qed
  show ?thesis
    using other same
    by (simp add: removeEach_fold count_list_fold_remove1 fold_remove1_distinct)
qed

theorem installDone_custom_bucket_witness:
  "m_setId innerArch \<noteq> CustomSetId K0
   \<and> stickerSets sessCustom (CustomSetId K0) = Some customSet
   \<and> distinct (stickers customSet)
   \<and> map_option stickers
        (stickerSets (snd (fst (installDone K0 100 messages_stickerSetInstallResultSuccess
                                 (innerArch, sessCustom) :: State0 \<times> Eff0)))
           (CustomSetId K0)) = Some [3]
   \<and> 10 \<notin> set (removeEach (m_pack innerArch) (stickers customSet))
   \<and> 11 \<notin> set (removeEach (m_pack innerArch) (stickers customSet))"
proof -
  have h: "m_setId innerArch \<noteq> CustomSetId K0"
    by (simp add: innerArch_def inner7_def Inner_new_def Inner_fields0_def K0_def)
  have c: "stickerSets sessCustom (CustomSetId K0) = Some customSet"
    by (simp add: sessCustom_def K0_def)
  have d: "distinct (stickers customSet)"
    by (simp add: customSet_def)
  obtain inner1 sess1 es1 where
    g1: "(installDone K0 100 messages_stickerSetInstallResultSuccess
            (innerArch, sessCustom) :: State0 \<times> Eff0) = ((inner1, sess1), es1)"
    by (metis prod.collapse)
  have r: "removeEach (m_pack innerArch) (stickers customSet) = [3]"
    by (simp add: innerArch_def customSet_def removeAt_def)
  note t = installDone_custom_bucket [OF g1]
  have reg: "stickerSets sess1 (CustomSetId K0) =
            (if removeEach (m_pack innerArch) (stickers customSet) = [] then None
             else Some (customSet\<lparr>stickers := removeEach (m_pack innerArch) (stickers customSet)\<rparr>))"
    using t [THEN conjunct1] h c by simp
  have rest: "\<forall>S \<in> set (m_pack innerArch).
         S \<notin> set (removeEach (m_pack innerArch) (stickers customSet))"
    using t [THEN conjunct2, THEN conjunct2, rule_format, OF c] d by blast
  have m10: "10 \<in> set (m_pack innerArch)" and m11: "11 \<in> set (m_pack innerArch)"
    by (simp_all add: innerArch_def)
  show ?thesis
    unfolding g1 using h c d reg rest [rule_format, OF m10] rest [rule_format, OF m11]
    by (simp add: r)
qed

subsection \<open>The install request\<close>

text \<open>
  C6. With request ids that are not zero: a first call of \<^verbatim>\<open>install\<close> on a dialog
  with no request in flight and no masks set sends one request and stores its id; a
  second call before any callback sends nothing and changes nothing, so the two calls
  together send exactly one request. Whenever the stored request id is not zero, a call
  of \<^verbatim>\<open>install\<close> sends no request and leaves the dialog unchanged.
\<close>

theorem install_twice_one_request:
  assumes "rid \<noteq> 0" and "\<not> isMasksSet K inner" and "m_installRequest inner = 0"
    and "install K rid inner = (inner1, es1 :: 'c Effect list)"
    and "install K rid2 inner1 = (inner2, es2 :: 'c Effect list)"
  shows "es1 = [SendInstallStickerSet (m_input inner)]
       \<and> m_installRequest inner1 = rid
       \<and> es2 = [] \<and> inner2 = inner1
       \<and> installRequests (es1 @ es2) = 1
       \<and> run E K [Install rid, Install rid2] (inner, sess) = ((inner1, sess), es1)
       \<and> (\<forall>other r. m_installRequest other \<noteq> 0 \<longrightarrow>
            fst (install K r other :: Inner \<times> 'c Effect list) = other \<and>
            installRequests (snd (install K r other) :: 'c Effect list) = 0 \<and>
            (\<not> isMasksSet K other \<longrightarrow> snd (install K r other) = ([] :: 'c Effect list)))"
proof -
  have i1: "inner1 = inner\<lparr>m_installRequest := rid\<rparr>"
    and e1: "es1 = [SendInstallStickerSet (m_input inner)]"
    using assms(2,3,4) by (auto simp: install_def)
  have m1: "\<not> isMasksSet K inner1" using assms(2) i1 by (simp add: isMasksSet_def)
  have i2: "inner2 = inner1" and e2: "es2 = []"
    using assms(1,5) m1 i1 by (auto simp: install_def)
  have r: "run E K [Install rid, Install rid2] (inner, sess) = ((inner1, sess), es1)"
    using assms(4,5) i2 e2 by simp
  show ?thesis
    using i1 e1 i2 e2 r by (simp add: installRequests_def install_def)
qed

theorem install_twice_one_request_witness:
  "(5 :: mtpRequestId) \<noteq> 0 \<and> \<not> isMasksSet K0 innerArch \<and> m_installRequest innerArch = 0
   \<and> snd (install K0 5 innerArch :: Inner \<times> Eff0) = [SendInstallStickerSet (inputStickerSetID 7 0)]
   \<and> snd (install K0 6 (fst (install K0 5 innerArch :: Inner \<times> Eff0)) :: Inner \<times> Eff0) = []"
proof -
  have h1: "(5 :: mtpRequestId) \<noteq> 0" by simp
  have h2: "\<not> isMasksSet K0 innerArch"
    by (simp add: isMasksSet_def K0_def innerArch_def)
  have h3: "m_installRequest innerArch = 0"
    by (simp add: innerArch_def inner7_def Inner_new_def Inner_fields0_def)
  obtain inner1 es1 where g1: "(install K0 5 innerArch :: Inner \<times> Eff0) = (inner1, es1)"
    by (metis prod.collapse)
  obtain inner2 es2 where g2: "(install K0 6 inner1 :: Inner \<times> Eff0) = (inner2, es2)"
    by (metis prod.collapse)
  from install_twice_one_request [OF h1 h2 h3 g1 g2, of E0 sess0] h1 h2 h3 show ?thesis
    unfolding g1 fst_conv snd_conv g2
    by (simp add: innerArch_def inner7_def Inner_new_def Inner_fields0_def)
qed

text \<open>
  C7. For a set whose flags carry the masks bit, \<^verbatim>\<open>install\<close> sends no request and
  changes neither the dialog nor the session: it only shows the "masks pack" box, which
  is not the "stickers not found" box.
\<close>

theorem install_masks_refused:
  assumes "m_setFlags inner AND f_masks K \<noteq> 0"
  shows "isMasksSet K inner
       \<and> install K rid inner = (inner, [ShowInformBox lng_stickers_masks_pack :: 'c Effect])
       \<and> step E K (Install rid) (inner, sess)
           = ((inner, sess), [ShowInformBox lng_stickers_masks_pack :: 'c Effect])
       \<and> installRequests (snd (install K rid inner) :: 'c Effect list) = 0
       \<and> lng_stickers_masks_pack \<noteq> lng_stickers_not_found"
  using assms by (simp add: isMasksSet_def install_def installRequests_def)

theorem install_masks_refused_witness:
  "m_setFlags innerMasks AND f_masks K0 \<noteq> 0
   \<and> (install K0 5 innerMasks :: Inner \<times> Eff0)
       = (innerMasks, [ShowInformBox lng_stickers_masks_pack])"
proof -
  have h: "m_setFlags innerMasks AND f_masks K0 \<noteq> 0"
    by (simp add: innerMasks_def K0_def)
  from install_masks_refused [where 'c = unit, OF h, of 5 E0 sess0] h show ?thesis by simp
qed

text \<open>
  C9. With request ids that are not zero, any run of events on one dialog, with fetch
  and install completions and failures in any order, sends at most one install request.
  Once the stored request id is not zero it keeps its value through every later event,
  no further request is sent, and every later call of \<^verbatim>\<open>install\<close> leaves the dialog
  unchanged and sends nothing.
\<close>

theorem install_request_never_reset:
  assumes "run E K evs (inner, sess) = ((inner', sess'), es)"
    and "\<forall>rid. Install rid \<in> set evs \<longrightarrow> rid \<noteq> 0"
  shows "installRequests es \<le> 1
       \<and> (m_installRequest inner \<noteq> 0 \<longrightarrow>
            m_installRequest inner' = m_installRequest inner \<and> installRequests es = 0 \<and>
            (\<forall>rid. fst (install K rid inner' :: Inner \<times> 'c Effect list) = inner' \<and>
                   installRequests (snd (install K rid inner') :: 'c Effect list) = 0 \<and>
                   (\<not> isMasksSet K inner' \<longrightarrow>
                      snd (install K rid inner') = ([] :: 'c Effect list))))"
proof -
  have one: "installRequests es \<le> 1" using run_at_most_one [OF assms] .
  have later: "m_installRequest inner' = m_installRequest inner \<and> installRequests es = 0 \<and>
            (\<forall>rid. fst (install K rid inner' :: Inner \<times> 'c Effect list) = inner' \<and>
                   installRequests (snd (install K rid inner') :: 'c Effect list) = 0 \<and>
                   (\<not> isMasksSet K inner' \<longrightarrow>
                      snd (install K rid inner') = ([] :: 'c Effect list)))"
    if nz: "m_installRequest inner \<noteq> 0"
  proof -
    note k = run_keeps_request [OF assms(1) nz]
    then have "m_installRequest inner' \<noteq> 0" using nz by simp
    then show ?thesis using k by (simp add: install_def installRequests_def)
  qed
  show ?thesis using one later by blast
qed

theorem install_request_never_reset_witness:
  "installRequests (snd (run E0 K0 trace9 (innerArch, sessArch))) = 1
   \<and> m_installRequest (fst (fst (run E0 K0 trace9 (innerArch, sessArch)))) = 5"
proof -
  have h: "\<forall>rid. Install rid \<in> set trace9 \<longrightarrow> rid \<noteq> 0"
    by (auto simp: trace9_def)
  obtain inner' sess' es where
    g: "run E0 K0 trace9 (innerArch, sessArch) = ((inner', sess'), es)"
    by (metis prod.collapse)
  have i5: "m_installRequest inner' = 5" and ge: "installRequests es \<ge> 1"
    using g
    by (auto simp: trace9_def install_def installFail_def installDone_def Let_def isMasksSet_def
        installRequests_def innerArch_def inner7_def Inner_new_def Inner_fields0_def K0_def
        split: prod.splits if_splits)
  from install_request_never_reset [OF g h] ge i5 show ?thesis
    unfolding g by simp
qed

end
